theory Spec2Isabelle
  imports Main
begin

section \<open>go-dbx: row-to-record mapping and transaction scopes\<close>

text \<open>
  A shallow embedding of package \<open>db\<close> of go-dbx: \<open>createFieldMap\<close> and
  \<open>parseDbResult\<close> (Helper.go), \<open>Query\<close> and \<open>QueryAsync\<close> (Query.go),
  \<open>ExecuteInTransaction\<close> and \<open>ExecuteInTransactionAsync\<close>.
  The collaborators of \<open>database/sql\<close> (row cursor, transaction handle, connection) are
  state records and parameters, as are \<open>strings.ToLower\<close> and \<open>async.Do\<close>; a Go panic is the outcome \<open>Panics\<close>, a Go \<open>error\<close> is a
  value of type \<open>error\<close>, and a multiple return \<open>(x, err)\<close> is a pair whose second
  component is \<open>None\<close> for \<open>nil\<close>.
\<close>

subsection \<open>Errors and outcomes\<close>

text \<open>
  \<open>ErrInvalidDataType\<close> is the package's own error type; every other Go error value
  (driver errors, errors of a caller's scope function) is an \<open>OtherError\<close>.
\<close>

datatype error = ErrInvalidDataType (Message: string) | OtherError string

definition Error :: "error \<Rightarrow> string" where
  "Error e = (case e of ErrInvalidDataType m \<Rightarrow> ''ErrInvalidDataType: '' @ m | OtherError m \<Rightarrow> m)"

datatype 'a outcome = Panics | Returns 'a

subsection \<open>Record shapes and reflected values\<close>

text \<open>
  A value of the record type \<open>T\<close>: a struct is the list of its fields in declaration order,
  every other kind is a leaf holding a scalar. A field carries its name, the value of its
  \<open>db\<close> tag (empty when the tag is absent), whether it is embedded (\<open>Anonymous\<close>), whether it
  is exported (the only fields for which \<open>CanSet\<close> holds on the addressable values the mapper
  walks), and its value.
\<close>

datatype scalar = SNull | SInt int | SStr string | SBool bool

datatype gval = Leaf scalar | Struct "struct_field list"
and struct_field = StructField (fname: string) (ftag: string) (anonymous: bool) (exported: bool) (fval: gval)

text \<open>
  A \<open>reflect.Value\<close> obtained from \<open>reflect.ValueOf(&item).Elem()\<close> is a location inside
  \<open>item\<close> (the indices of the fields leading to it) together with what is stored there. The
  pointer \<open>field.Addr().Interface()\<close> is that location.
\<close>

type_synonym rvalue = "nat list \<times> gval"

type_synonym fieldmap = "string \<rightharpoonup> nat list"

subsection \<open>createFieldMap\<close>

text \<open>
  \<open>NumField\<close> panics on a value that is not a struct. The loop over the field indices is
  \<open>fieldLoop\<close>, with the index \<open>i\<close> and the map built so far. The result \<open>(nil, err)\<close> is
  \<open>Inl err\<close> and \<open>(fieldMap, nil)\<close> is \<open>Inr fieldMap\<close>. The library function
  \<open>strings.ToLower\<close> is the parameter \<open>toLower\<close>.
\<close>

fun createFieldMap :: "(string \<Rightarrow> string) \<Rightarrow> rvalue \<Rightarrow> string list \<Rightarrow> string \<Rightarrow> (error + fieldmap) outcome"
and fieldLoop :: "(string \<Rightarrow> string) \<Rightarrow> nat list \<Rightarrow> struct_field list \<Rightarrow> nat \<Rightarrow> string list \<Rightarrow> string \<Rightarrow> fieldmap
                  \<Rightarrow> (error + fieldmap) outcome"
where
  "createFieldMap toLower (a, Leaf s) columns prefix = Panics"
| "createFieldMap toLower (a, Struct fs) columns prefix = fieldLoop toLower a fs 0 columns prefix Map.empty"
| "fieldLoop toLower a [] i columns prefix fieldMap = Returns (Inr fieldMap)"
| "fieldLoop toLower a (StructField name fieldTag anon canSet v # fs) i columns prefix fieldMap =
     (if \<not> canSet then fieldLoop toLower a fs (Suc i) columns prefix fieldMap
      else case v of
        Struct nfs \<Rightarrow>
          if anon then
            (case createFieldMap toLower (a @ [i], v) columns prefix of
               Panics \<Rightarrow> Panics
             | Returns (Inl err) \<Rightarrow> Returns (Inl err)
             | Returns (Inr nestedMap) \<Rightarrow>
                 fieldLoop toLower a fs (Suc i) columns prefix (fieldMap ++ nestedMap))
          else
            (let nestedPrefix = fieldTag;
                 nestedPrefix = (if nestedPrefix = [] then toLower name else nestedPrefix);
                 nestedPrefix = (if prefix \<noteq> [] then prefix @ ''_'' @ nestedPrefix
                                 else nestedPrefix)
             in case createFieldMap toLower (a @ [i], v) columns nestedPrefix of
                  Panics \<Rightarrow> Panics
                | Returns (Inl err) \<Rightarrow> Returns (Inl err)
                | Returns (Inr nestedMap) \<Rightarrow>
                    fieldLoop toLower a fs (Suc i) columns prefix (fieldMap ++ nestedMap))
      | Leaf s \<Rightarrow>
          (let columnName = fieldTag;
               columnName = (if columnName = [] then toLower name else columnName);
               columnName = (if prefix \<noteq> [] then prefix @ ''_'' @ columnName else columnName)
           in fieldLoop toLower a fs (Suc i) columns prefix (fieldMap(columnName \<mapsto> a @ [i]))))"

subsection \<open>The row cursor of the database layer\<close>

text \<open>
  \<open>sql.Rows\<close> as the mapper sees it: the column names (or the error of \<open>Columns\<close>), the rows
  still to be yielded by \<open>Next\<close>, the row \<open>Next\<close> made current, and the terminal error that
  \<open>Err\<close> reports once \<open>Next\<close> has returned false.
\<close>

record cursor =
  col_names :: "error + string list"
  pending :: "scalar list list"
  current :: "scalar list option"
  terminal :: "error option"

definition rows_Columns :: "cursor \<Rightarrow> error + string list" where
  "rows_Columns rows = col_names rows"

definition rows_Next :: "cursor \<Rightarrow> bool \<times> cursor" where
  "rows_Next rows =
     (case pending rows of
        [] \<Rightarrow> (False, rows\<lparr>current := None\<rparr>)
      | r # rs \<Rightarrow> (True, rows\<lparr>pending := rs, current := Some r\<rparr>))"

definition rows_Err :: "cursor \<Rightarrow> error option" where
  "rows_Err rows = terminal rows"

text \<open>
  A scan destination is a pointer to a field of the item or a pointer to a fresh \<open>dummy\<close>
  variable of type \<open>any\<close>. The conversion of a driver value into the contents of a field is
  the database layer's (\<open>convertAssign\<close>), a parameter \<open>conv\<close> here: given the driver value
  and the present contents of the destination it yields the new contents or an error. A
  destination of type \<open>*any\<close> accepts every driver value and the dummy is dropped afterwards.
\<close>

datatype dest = FieldPtr "nat list" | Dummy

type_synonym conv = "scalar \<Rightarrow> gval \<Rightarrow> error + gval"

text \<open>
  Writing through a pointer: the item is passed explicitly and returned updated. The
  pointers built by \<open>createFieldMap\<close> always lead to a field of the item; a location that
  does not exist leaves the item as it is. \<open>Scan\<close> converts the values of the current row
  column by column and stops at the first error; the caller drops the item then, so the
  result is the error or the item with all columns stored.
\<close>

fun assign_at :: "nat list \<Rightarrow> (gval \<Rightarrow> error + gval) \<Rightarrow> gval \<Rightarrow> error + gval" where
  "assign_at [] f v = f v"
| "assign_at (i # p) f (Leaf s) = Inr (Leaf s)"
| "assign_at (i # p) f (Struct fs) =
     (if i < length fs then
        (case fs ! i of StructField name fieldTag anon canSet w \<Rightarrow>
           (case assign_at p f w of
              Inl err \<Rightarrow> Inl err
            | Inr w' \<Rightarrow> Inr (Struct (fs[i := StructField name fieldTag anon canSet w']))))
      else Inr (Struct fs))"

fun scan_cols :: "conv \<Rightarrow> dest list \<Rightarrow> scalar list \<Rightarrow> gval \<Rightarrow> error + gval" where
  "scan_cols conv (Dummy # ds) (sv # svs) item = scan_cols conv ds svs item"
| "scan_cols conv (FieldPtr p # ds) (sv # svs) item =
     (case assign_at p (conv sv) item of
        Inl err \<Rightarrow> Inl err
      | Inr item' \<Rightarrow> scan_cols conv ds svs item')"
| "scan_cols conv ds svs item = Inr item"

definition rows_Scan :: "conv \<Rightarrow> cursor \<Rightarrow> dest list \<Rightarrow> gval \<Rightarrow> error + gval" where
  "rows_Scan conv rows scanDest item =
     (case current rows of
        None \<Rightarrow> Inl (OtherError ''sql: Scan called without calling Next'')
      | Some row \<Rightarrow>
          if length scanDest \<noteq> length row
          then Inl (OtherError ''sql: wrong number of destination arguments in Scan'')
          else scan_cols conv scanDest row item)"

subsection \<open>parseDbResult\<close>

text \<open>
  A slice is \<open>None\<close> when it is \<open>nil\<close>; \<open>append\<close> to a nil slice allocates.
\<close>

definition append_slice :: "'a list option \<Rightarrow> 'a \<Rightarrow> 'a list option" where
  "append_slice s x = (case s of None \<Rightarrow> Some [x] | Some xs \<Rightarrow> Some (xs @ [x]))"

definition len :: "'a list option \<Rightarrow> nat" where
  "len s = (case s of None \<Rightarrow> 0 | Some xs \<Rightarrow> length xs)"

definition scanDest_of :: "fieldmap \<Rightarrow> string list \<Rightarrow> dest list" where
  "scanDest_of fieldMap columns =
     map (\<lambda>col. case fieldMap col of Some ptr \<Rightarrow> FieldPtr ptr | None \<Rightarrow> Dummy) columns"

text \<open>
  The type parameter \<open>T\<close> is given by its zero value \<open>zero\<close>, the contents of \<open>var item T\<close>.
  \<open>parse_loop\<close> is the loop \<open>for rows.Next() { ... }\<close> with the cursor and the result slice
  as its state.
\<close>

function parse_loop :: "(string \<Rightarrow> string) \<Rightarrow> gval \<Rightarrow> conv \<Rightarrow> string list \<Rightarrow> cursor \<Rightarrow> gval list option
                        \<Rightarrow> (gval list option \<times> error option) outcome" where
  "parse_loop toLower zero conv columns rows result =
     (if fst (rows_Next rows) then
        (let rows' = snd (rows_Next rows); item = zero in
         case createFieldMap toLower ([], item) columns [] of
           Panics \<Rightarrow> Panics
         | Returns (Inl err) \<Rightarrow> Returns (None, Some err)
         | Returns (Inr fieldMap) \<Rightarrow>
             (case rows_Scan conv rows' (scanDest_of fieldMap columns) item of
                Inl err \<Rightarrow> Returns (None, Some err)
              | Inr item' \<Rightarrow> parse_loop toLower zero conv columns rows' (append_slice result item')))
      else Returns (result, rows_Err (snd (rows_Next rows))))"
  by pat_completeness auto
termination
  by (relation "measure (\<lambda>(toLower, zero, conv, columns, rows, result). length (pending rows))")
     (auto simp: rows_Next_def split: list.splits)

definition parseDbResult :: "(string \<Rightarrow> string) \<Rightarrow> gval \<Rightarrow> conv \<Rightarrow> cursor
                             \<Rightarrow> (gval list option \<times> error option) outcome" where
  "parseDbResult toLower zero conv rows =
     (case rows_Columns rows of
        Inl err \<Rightarrow> Returns (None, Some err)
      | Inr columns \<Rightarrow> parse_loop toLower zero conv columns rows None)"

subsection \<open>Query\<close>

text \<open>
  The session \<open>conn\<close> is its method \<open>QueryContext\<close>: from the context, the query text and the
  arguments to a cursor or an error. The deferred \<open>rows.Close()\<close> releases the cursor and has
  no part in the returned pair.
\<close>

type_synonym 'c session = "'c \<Rightarrow> string \<Rightarrow> scalar list \<Rightarrow> error + cursor"

definition Query :: "(string \<Rightarrow> string) \<Rightarrow> gval \<Rightarrow> conv \<Rightarrow> 'c \<Rightarrow> 'c session \<Rightarrow> string \<Rightarrow> scalar list
                     \<Rightarrow> (gval list option \<times> error option) outcome" where
  "Query toLower zero conv ctx conn query args =
     (case conn ctx query args of
        Inl err \<Rightarrow> Returns (None, Some err)
      | Inr rows \<Rightarrow>
          (case parseDbResult toLower zero conv rows of
             Panics \<Rightarrow> Panics
           | Returns (result, Some err) \<Rightarrow> Returns (None, Some err)
           | Returns (result, None) \<Rightarrow> Returns (result, None)))"

subsection \<open>ExecuteInTransaction\<close>

text \<open>
  The transaction handle \<open>sql.Tx\<close>: the calls of \<open>Commit\<close> and \<open>Rollback\<close> it has received,
  in order, and what the database layer answers to each of them.
\<close>

datatype tx_call = Commit | Rollback

record tx =
  history :: "tx_call list"
  commit_result :: "error option"
  rollback_result :: "error option"

definition tx_Commit :: "tx \<Rightarrow> error option \<times> tx" where
  "tx_Commit t = (commit_result t, t\<lparr>history := history t @ [Commit]\<rparr>)"

definition tx_Rollback :: "tx \<Rightarrow> error option \<times> tx" where
  "tx_Rollback t = (rollback_result t, t\<lparr>history := history t @ [Rollback]\<rparr>)"

text \<open>
  The connection \<open>db\<close> is its method \<open>BeginTx\<close>. A scope function receives the handle and
  returns it as it has left it, with its pair \<open>(T, error)\<close> or a panic.
\<close>

type_synonym ('c, 'o) connection = "'c \<Rightarrow> 'o option \<Rightarrow> error + tx"

type_synonym ('c, 'a) TransactionScopeFunction = "'c \<Rightarrow> tx \<Rightarrow> ('a \<times> error option) outcome \<times> tx"

text \<open>
  \<open>zero\<close> is \<open>*new(T)\<close>. The second component of the result is the handle when the function
  is left (\<open>None\<close> when \<open>BeginTx\<close> failed): \<open>defer tx.Rollback()\<close> runs when the body after it
  is left, on every path, and its error is dropped.
\<close>

definition ExecuteInTransaction ::
  "'a \<Rightarrow> 'c \<Rightarrow> ('c, 'o) connection \<Rightarrow> ('c, 'a) TransactionScopeFunction \<Rightarrow> 'o list
   \<Rightarrow> ('a \<times> error option) outcome \<times> tx option" where
  "ExecuteInTransaction zero ctx db tsf opts =
     (let txOpts = (if length opts > 0 then Some (opts ! 0) else None) in
      case db ctx txOpts of
        Inl err \<Rightarrow> (Returns (zero, Some err), None)
      | Inr t \<Rightarrow>
          (let (res, t') =
             (case tsf ctx t of
                (Panics, t1) \<Rightarrow> (Panics, t1)
              | (Returns (r, Some err), t1) \<Rightarrow> (Returns (zero, Some err), t1)
              | (Returns (r, None), t1) \<Rightarrow>
                  (case tx_Commit t1 of
                     (Some err, t2) \<Rightarrow> (Returns (zero, Some err), t2)
                   | (None, t2) \<Rightarrow> (Returns (r, None), t2)))
           in (res, Some (snd (tx_Rollback t')))))"

subsection \<open>QueryAsync and ExecuteInTransactionAsync\<close>

text \<open>
  \<open>async.Do\<close> of the module go-async is the parameter \<open>Do\<close>: from the context and a unit of work
  to the asynchronous result, which is represented by the sequence of pairs it is resolved
  with. Each wrapper hands \<open>Do\<close> the closure that calls the synchronous function with the
  arguments of the call and the context \<open>Do\<close> passes in; the closure of
  \<open>ExecuteInTransactionAsync\<close> returns the pair of \<open>ExecuteInTransaction\<close>.
\<close>

type_synonym ('c, 'r) async_Do = "'c \<Rightarrow> ('c \<Rightarrow> 'r outcome) \<Rightarrow> 'r list"

definition QueryAsync ::
  "('c, gval list option \<times> error option) async_Do \<Rightarrow> (string \<Rightarrow> string) \<Rightarrow> gval \<Rightarrow> conv
   \<Rightarrow> 'c \<Rightarrow> 'c session \<Rightarrow> string \<Rightarrow> scalar list \<Rightarrow> (gval list option \<times> error option) list" where
  "QueryAsync Do toLower zero conv ctx conn query args =
     Do ctx (\<lambda>ctx. Query toLower zero conv ctx conn query args)"

definition ExecuteInTransactionAsync ::
  "('c, 'a \<times> error option) async_Do \<Rightarrow> 'a \<Rightarrow> 'c \<Rightarrow> ('c, 'o) connection
   \<Rightarrow> ('c, 'a) TransactionScopeFunction \<Rightarrow> 'o list \<Rightarrow> ('a \<times> error option) list" where
  "ExecuteInTransactionAsync Do zero ctx db tsf opts =
     Do ctx (\<lambda>ctx. fst (ExecuteInTransaction zero ctx db tsf opts))"

subsection \<open>The column-name resolution rule, as the specification words it\<close>

text \<open>
  The rule read as a list of bindings (column name, location of the field), in declaration
  order: a leaf field binds its resolved name (the tag, else the lower-cased field name); an
  embedded struct contributes the bindings of its own fields unchanged; a named nested
  struct contributes the bindings of its fields with \<open><resolved>_\<close> put in front of each
  name. Fields that cannot be set take no part. No prefix is threaded through: the names of
  an inner record are rewritten on the way out.
\<close>

fun spec_columns :: "(string \<Rightarrow> string) \<Rightarrow> gval \<Rightarrow> (string \<times> nat list) list"
and spec_fields :: "(string \<Rightarrow> string) \<Rightarrow> struct_field list \<Rightarrow> nat \<Rightarrow> (string \<times> nat list) list" where
  "spec_columns toLower (Leaf s) = []"
| "spec_columns toLower (Struct fs) = spec_fields toLower fs 0"
| "spec_fields toLower [] i = []"
| "spec_fields toLower (StructField name fieldTag anon canSet v # fs) i =
     (if \<not> canSet then []
      else
        (let resolved = (if fieldTag \<noteq> [] then fieldTag else toLower name) in
         case v of
           Leaf s \<Rightarrow> [(resolved, [i])]
         | Struct nfs \<Rightarrow>
             if anon then map (\<lambda>(k, p). (k, i # p)) (spec_columns toLower v)
             else map (\<lambda>(k, p). (resolved @ ''_'' @ k, i # p)) (spec_columns toLower v)))
     @ spec_fields toLower fs (Suc i)"

text \<open>
  The bindings seen from a namespace \<open>prefix\<close> and from the location \<open>a\<close> of the record;
  where two fields resolve to one column name, the later binding stands.
\<close>

definition with_prefix :: "string \<Rightarrow> string \<Rightarrow> string" where
  "with_prefix prefix k = (if prefix = [] then k else prefix @ ''_'' @ k)"

definition spec_fieldmap :: "nat list \<Rightarrow> string \<Rightarrow> (string \<times> nat list) list \<Rightarrow> fieldmap" where
  "spec_fieldmap a prefix bs = map_of (rev (map (\<lambda>(k, p). (with_prefix prefix k, a @ p)) bs))"

text \<open>
  Go identifiers are not empty: \<open>go_names\<close> says so of every field name of a shape.
\<close>

fun go_names :: "gval \<Rightarrow> bool" and go_names_fields :: "struct_field list \<Rightarrow> bool" where
  "go_names (Leaf s) = True"
| "go_names (Struct fs) = go_names_fields fs"
| "go_names_fields [] = True"
| "go_names_fields (StructField name fieldTag anon canSet v # fs) =
     (name \<noteq> [] \<and> go_names v \<and> go_names_fields fs)"


subsection \<open>Rows scanned one by one, and where an error comes from\<close>

text \<open>
  \<open>elems\<close> are the elements of a slice (a nil slice has none). \<open>scan_row\<close> is the \<open>Scan\<close> of
  one row, as the current row of a cursor, into a fresh item under a given field map;
  \<open>scan_all\<close> scans the rows in cursor order and is the first error, or the items of all
  rows.
\<close>

definition elems :: "'a list option \<Rightarrow> 'a list" where
  "elems s = (case s of None \<Rightarrow> [] | Some xs \<Rightarrow> xs)"

definition scan_row :: "conv \<Rightarrow> fieldmap \<Rightarrow> string list \<Rightarrow> gval \<Rightarrow> scalar list \<Rightarrow> error + gval" where
  "scan_row conv fieldMap columns zero row =
     rows_Scan conv \<lparr>col_names = Inr columns, pending = [], current = Some row, terminal = None\<rparr>
       (scanDest_of fieldMap columns) zero"

fun scan_all :: "conv \<Rightarrow> fieldmap \<Rightarrow> string list \<Rightarrow> gval \<Rightarrow> scalar list list \<Rightarrow> error + gval list" where
  "scan_all conv fieldMap columns zero [] = Inr []"
| "scan_all conv fieldMap columns zero (row # rs) =
     (case scan_row conv fieldMap columns zero row of
        Inl err \<Rightarrow> Inl err
      | Inr item \<Rightarrow>
          (case scan_all conv fieldMap columns zero rs of
             Inl err \<Rightarrow> Inl err
           | Inr items \<Rightarrow> Inr (item # items)))"

text \<open>
  The errors that the collaborators produce in one run. For \<open>Query\<close>: the error of the
  session, of \<open>Columns\<close>, the terminal error of the cursor, or the error of the \<open>Scan\<close> of one of
  the cursor's rows. For \<open>ExecuteInTransaction\<close>: the error of \<open>BeginTx\<close>, of the scope function,
  or of the \<open>Commit\<close> on the handle the scope function has left.
\<close>

definition query_error_origin ::
  "(string \<Rightarrow> string) \<Rightarrow> gval \<Rightarrow> conv \<Rightarrow> 'c \<Rightarrow> 'c session \<Rightarrow> string \<Rightarrow> scalar list \<Rightarrow> error \<Rightarrow> bool" where
  "query_error_origin toLower zero conv ctx conn query args e =
     (case conn ctx query args of
        Inl err \<Rightarrow> err = e
      | Inr rows \<Rightarrow>
          (case rows_Columns rows of
             Inl err \<Rightarrow> err = e
           | Inr columns \<Rightarrow>
               rows_Err rows = Some e
               \<or> (case createFieldMap toLower ([], zero) columns [] of
                     Returns (Inr fieldMap) \<Rightarrow>
                       list_ex (\<lambda>row. scan_row conv fieldMap columns zero row = Inl e) (pending rows)
                   | _ \<Rightarrow> False)))"

definition tx_error_origin ::
  "'c \<Rightarrow> ('c, 'o) connection \<Rightarrow> ('c, 'a) TransactionScopeFunction \<Rightarrow> 'o list \<Rightarrow> error \<Rightarrow> bool" where
  "tx_error_origin ctx db tsf opts e =
     (case db ctx (if length opts > 0 then Some (opts ! 0) else None) of
        Inl err \<Rightarrow> err = e
      | Inr t \<Rightarrow>
          (case tsf ctx t of
             (Panics, t1) \<Rightarrow> False
           | (Returns (r, Some err), t1) \<Rightarrow> err = e
           | (Returns (r, None), t1) \<Rightarrow> fst (tx_Commit t1) = Some e))"

subsection \<open>A result set without its unmapped columns\<close>

text \<open>
  \<open>keep_mapped\<close> keeps of a row (or of the column list itself) the positions whose column
  has a binding in the field map; \<open>drop_unmapped\<close> is the cursor as it would be had the
  query not selected the other columns.
\<close>

definition keep_mapped :: "fieldmap \<Rightarrow> string list \<Rightarrow> 'a list \<Rightarrow> 'a list" where
  "keep_mapped fieldMap columns xs =
     map snd (filter (\<lambda>(col, x). fieldMap col \<noteq> None) (zip columns xs))"

definition drop_unmapped :: "fieldmap \<Rightarrow> cursor \<Rightarrow> cursor" where
  "drop_unmapped fieldMap rows =
     (case col_names rows of
        Inl err \<Rightarrow> rows
      | Inr columns \<Rightarrow>
          rows\<lparr>col_names := Inr (keep_mapped fieldMap columns columns),
               pending := map (keep_mapped fieldMap columns) (pending rows),
               current := map_option (keep_mapped fieldMap columns) (current rows)\<rparr>)"

subsection \<open>Scenarios\<close>

text \<open>
  A database layer for the scenarios: a driver value is stored into a field of its own kind
  and refused by any other field. The session hands out one given cursor.
\<close>

definition scan_same_kind :: conv where
  "scan_same_kind sv d =
     (case (sv, d) of
        (SInt n, Leaf (SInt m)) \<Rightarrow> Inr (Leaf (SInt n))
      | (SStr x, Leaf (SStr y)) \<Rightarrow> Inr (Leaf (SStr x))
      | (SBool b, Leaf (SBool c)) \<Rightarrow> Inr (Leaf (SBool b))
      | _ \<Rightarrow> Inl (OtherError ''sql: Scan error: unsupported conversion''))"

text \<open>
  The field names of the scenarios are ASCII, where \<open>strings.ToLower\<close> turns the letters
  \<open>A\<close> to \<open>Z\<close> into \<open>a\<close> to \<open>z\<close> and leaves every other byte.
\<close>

definition toLower_ascii_char :: "char \<Rightarrow> char" where
  "toLower_ascii_char c =
     (let n = (of_char c :: nat) in if 65 \<le> n \<and> n \<le> 90 then char_of (n + 32) else c)"

definition toLower_ascii :: "string \<Rightarrow> string" where
  "toLower_ascii s = map toLower_ascii_char s"

text \<open>
  Modelled from the spec: the background execution capability
  \<open>schedule(ctx, unitOfWork) -> AsyncResult\<close> that \<open>async.Do\<close> provides; its code is in the
  module go-async. The asynchronous result is resolved exactly once, with the value-or-error
  pair of the unit of work run under the given context. Of a unit of work that panics the
  spec says nothing; no resolution is recorded for it here.
\<close>

definition schedule :: "(unit, 'r) async_Do" where
  "schedule ctx unitOfWork = (case unitOfWork ctx of Returns p \<Rightarrow> [p] | Panics \<Rightarrow> [])"

definition session_of :: "cursor \<Rightarrow> unit session" where
  "session_of rows = (\<lambda>ctx query args. Inr rows)"

definition rows_of :: "string list \<Rightarrow> scalar list list \<Rightarrow> error option \<Rightarrow> cursor" where
  "rows_of columns rs e = \<lparr>col_names = Inr columns, pending = rs, current = None, terminal = e\<rparr>"

text \<open>
  \<open>struct { ID int `db:"id"`; Name string `db:"name"` }\<close> and
  \<open>struct { ID int `db:"id"`; Address struct { Street string } `db:"address_"` }\<close>,
  as zero values.
\<close>

definition User :: gval where
  "User = Struct [StructField ''ID'' ''id'' False True (Leaf (SInt 0)),
                  StructField ''Name'' ''name'' False True (Leaf (SStr []))]"

definition UserWithAddress :: gval where
  "UserWithAddress =
     Struct [StructField ''ID'' ''id'' False True (Leaf (SInt 0)),
             StructField ''Address'' ''address_'' False True
               (Struct [StructField ''Street'' [] False True (Leaf (SStr []))])]"

text \<open>
  A handle that has received no call yet and answers \<open>c\<close> to a commit; a connection whose
  \<open>BeginTx\<close> answers \<open>b\<close>; a scope function that leaves the handle alone and ends with \<open>out\<close>.
\<close>

definition fresh_tx :: "error option \<Rightarrow> tx" where
  "fresh_tx c = \<lparr>history = [], commit_result = c, rollback_result = None\<rparr>"

definition connection_of :: "error + tx \<Rightarrow> (unit, unit) connection" where
  "connection_of b = (\<lambda>ctx txOpts. b)"

definition scope_of :: "(nat \<times> error option) outcome \<Rightarrow> (unit, nat) TransactionScopeFunction" where
  "scope_of out = (\<lambda>ctx t. (out, t))"

section \<open>Properties\<close>

subsection \<open>Auxiliary facts about the field map\<close>

lemma spec_fieldmap_append:
  "spec_fieldmap a p (xs @ ys) = spec_fieldmap a p xs ++ spec_fieldmap a p ys"
  by (simp add: spec_fieldmap_def map_of_append)

lemma spec_fieldmap_Nil: "spec_fieldmap a p [] = Map.empty"
  by (simp add: spec_fieldmap_def)

lemma spec_fieldmap_leaf: "spec_fieldmap a p [(k, [i])] = [with_prefix p k \<mapsto> a @ [i]]"
  by (simp add: spec_fieldmap_def)

lemma spec_fieldmap_embedded:
  "spec_fieldmap (a @ [i]) p xs = spec_fieldmap a p (map (\<lambda>(k, q). (k, i # q)) xs)"
  by (simp add: spec_fieldmap_def rev_map split_def comp_def)

lemma with_prefix_compose:
  "n \<noteq> [] \<Longrightarrow> with_prefix (with_prefix p n) k = with_prefix p (n @ ''_'' @ k)"
  by (simp add: with_prefix_def)

lemma spec_fieldmap_nested:
  "n \<noteq> [] \<Longrightarrow>
   spec_fieldmap (a @ [i]) (with_prefix p n) xs
     = spec_fieldmap a p (map (\<lambda>(k, q). (n @ ''_'' @ k, i # q)) xs)"
  by (simp add: spec_fieldmap_def rev_map split_def comp_def with_prefix_compose)

lemma spec_fieldmap_Cons:
  "fm ++ spec_fieldmap a p ((k, q) # xs) = fm(with_prefix p k \<mapsto> a @ q) ++ spec_fieldmap a p xs"
  by (rule ext) (simp add: spec_fieldmap_def map_add_def split: option.splits)

lemma fieldLoop_named:
  "canSet \<Longrightarrow> \<not> anon \<Longrightarrow>
   fieldLoop toLower a (StructField name fieldTag anon canSet (Struct nfs) # fs) i columns prefix fieldMap
     = (case createFieldMap toLower (a @ [i], Struct nfs) columns
              (with_prefix prefix (if fieldTag \<noteq> [] then fieldTag else toLower name)) of
          Panics \<Rightarrow> Panics
        | Returns (Inl err) \<Rightarrow> Returns (Inl err)
        | Returns (Inr nestedMap) \<Rightarrow> fieldLoop toLower a fs (Suc i) columns prefix (fieldMap ++ nestedMap))"
  by (simp add: with_prefix_def Let_def)

lemma fieldLoop_embedded:
  "canSet \<Longrightarrow> anon \<Longrightarrow>
   fieldLoop toLower a (StructField name fieldTag anon canSet (Struct nfs) # fs) i columns prefix fieldMap
     = (case createFieldMap toLower (a @ [i], Struct nfs) columns prefix of
          Panics \<Rightarrow> Panics
        | Returns (Inl err) \<Rightarrow> Returns (Inl err)
        | Returns (Inr nestedMap) \<Rightarrow> fieldLoop toLower a fs (Suc i) columns prefix (fieldMap ++ nestedMap))"
  by simp

lemma fieldLoop_leaf:
  "canSet \<Longrightarrow>
   fieldLoop toLower a (StructField name fieldTag anon canSet (Leaf s) # fs) i columns prefix fieldMap
     = fieldLoop toLower a fs (Suc i) columns prefix
         (fieldMap(with_prefix prefix (if fieldTag \<noteq> [] then fieldTag else toLower name) \<mapsto> a @ [i]))"
  by (simp add: with_prefix_def Let_def)

lemma fieldLoop_unexported:
  "\<not> canSet \<Longrightarrow>
   fieldLoop toLower a (StructField name fieldTag anon canSet v # fs) i columns prefix fieldMap
     = fieldLoop toLower a fs (Suc i) columns prefix fieldMap"
  by simp

lemma toLower_ascii_Nil_iff: "toLower_ascii s = [] \<longleftrightarrow> s = []"
  by (simp add: toLower_ascii_def)

lemma toLower_literals:
  "toLower_ascii ''ID'' = ''id''"
  "toLower_ascii ''Name'' = ''name''"
  "toLower_ascii ''Street'' = ''street''"
  "toLower_ascii ''Outer'' = ''outer''"
  "toLower_ascii ''Leaf'' = ''leaf''"
  by code_simp+

lemma createFieldMap_refines:
  assumes lower: "\<And>s. s \<noteq> [] \<Longrightarrow> toLower s \<noteq> []"
  shows "go_names v \<Longrightarrow> v = Struct sfs \<Longrightarrow>
     createFieldMap toLower (a, v) columns prefix
       = Returns (Inr (spec_fieldmap a prefix (spec_columns toLower v)))"
  and
  "go_names_fields fs \<Longrightarrow>
     fieldLoop toLower a fs i columns prefix fieldMap
       = Returns (Inr (fieldMap ++ spec_fieldmap a prefix (spec_fields toLower fs i)))"
proof (induction v and fs arbitrary: a prefix sfs and a i prefix fieldMap
       rule: go_names_go_names_fields.induct)
  case (1 s)
  then show ?case by simp
next
  case (2 fs)
  then show ?case by (simp add: spec_fieldmap_Nil)
next
  case 3
  then show ?case by (simp add: spec_fieldmap_Nil)
next
  case (4 name fieldTag anon canSet v fs)
  have rest: "\<And>m. fieldLoop toLower a fs (Suc i) columns prefix m
      = Returns (Inr (m ++ spec_fieldmap a prefix (spec_fields toLower fs (Suc i))))"
    using 4 by simp
  show ?case
  proof (cases canSet)
    case False
    then show ?thesis by (simp add: rest spec_fieldmap_Nil)
  next
    case True
    note cs = True
    show ?thesis
    proof (cases v)
      case (Leaf s)
      with cs show ?thesis
        by (simp add: rest spec_fieldmap_Cons with_prefix_def)
    next
      case (Struct nfs)
      have inner: "\<And>p. createFieldMap toLower (a @ [i], v) columns p
          = Returns (Inr (spec_fieldmap (a @ [i]) p (spec_columns toLower v)))"
        using 4 Struct by simp
      show ?thesis
      proof (cases anon)
        case True
        with cs Struct show ?thesis
          using inner [of prefix]
          by (simp add: rest spec_fieldmap_append spec_fieldmap_embedded [symmetric])
      next
        case False
        define n where "n = (if fieldTag \<noteq> [] then fieldTag else toLower name)"
        have n: "n \<noteq> []"
          using 4 lower [of name] by (simp add: n_def)
        have "fieldLoop toLower a (StructField name fieldTag anon canSet v # fs) i columns prefix fieldMap
            = Returns (Inr ((fieldMap ++ spec_fieldmap (a @ [i]) (with_prefix prefix n) (spec_columns toLower v))
                 ++ spec_fieldmap a prefix (spec_fields toLower fs (Suc i))))"
          unfolding Struct fieldLoop_named [OF cs False]
          using inner [of "with_prefix prefix n"]
          by (simp only: Struct n_def rest outcome.case sum.case)
        also have "spec_fieldmap (a @ [i]) (with_prefix prefix n) (spec_columns toLower v)
            = spec_fieldmap a prefix (map (\<lambda>(k, q). (n @ ''_'' @ k, i # q)) (spec_columns toLower v))"
          by (rule spec_fieldmap_nested [OF n])
        finally show ?thesis using cs Struct False
          by (simp add: spec_fieldmap_append n_def Let_def del: append.simps)
      qed
    qed
  qed
qed


text \<open>
  On a struct \<open>createFieldMap\<close> neither panics nor returns an error, and the column list it is
  handed has no influence on the map.
\<close>

lemma createFieldMap_total:
  "v = Struct sfs \<Longrightarrow> \<exists>m. createFieldMap toLower (a, v) columns prefix = Returns (Inr m)"
  "\<exists>m. fieldLoop toLower a fs i columns prefix fieldMap = Returns (Inr m)"
proof (induction v and fs arbitrary: a prefix sfs and a i prefix fieldMap
       rule: go_names_go_names_fields.induct)
  case (4 name fieldTag anon canSet v fs)
  note rest = "4.IH"(2)
  show ?case
  proof (cases canSet)
    case False
    then show ?thesis using rest by simp
  next
    case True
    note cs = True
    show ?thesis
    proof (cases v)
      case (Leaf s)
      show ?thesis unfolding Leaf fieldLoop_leaf [OF cs] by (rule rest)
    next
      case (Struct nfs)
      show ?thesis
      proof (cases anon)
        case True
        from "4.IH"(1) [OF Struct] obtain m
          where "createFieldMap toLower (a @ [i], Struct nfs) columns prefix = Returns (Inr m)"
          unfolding Struct by blast
        then show ?thesis unfolding Struct fieldLoop_embedded [OF cs True]
          using rest by simp
      next
        case False
        from "4.IH"(1) [OF Struct] obtain m
          where "createFieldMap toLower (a @ [i], Struct nfs) columns
              (with_prefix prefix (if fieldTag \<noteq> [] then fieldTag else toLower name)) = Returns (Inr m)"
          unfolding Struct by blast
        then show ?thesis unfolding Struct fieldLoop_named [OF cs False]
          using rest by simp
      qed
    qed
  qed
qed simp_all

lemma createFieldMap_columns_irrelevant:
  "createFieldMap toLower (a, v) columns prefix = createFieldMap toLower (a, v) columns' prefix"
  "fieldLoop toLower a fs i columns prefix fieldMap = fieldLoop toLower a fs i columns' prefix fieldMap"
proof (induction v and fs arbitrary: a prefix and a i prefix fieldMap
       rule: go_names_go_names_fields.induct)
  case (4 name fieldTag anon canSet v fs)
  note rest = "4.IH"(2)
  show ?case
  proof (cases canSet)
    case False
    then show ?thesis using rest by simp
  next
    case True
    note cs = True
    show ?thesis
    proof (cases v)
      case (Leaf s)
      show ?thesis unfolding Leaf fieldLoop_leaf [OF cs] by (rule rest)
    next
      case (Struct nfs)
      show ?thesis
      proof (cases anon)
        case True
        show ?thesis unfolding Struct fieldLoop_embedded [OF cs True]
          using "4.IH"(1) [of "a @ [i]" prefix] rest
          by (simp add: Struct split: outcome.splits sum.splits)
      next
        case False
        show ?thesis unfolding Struct fieldLoop_named [OF cs False]
          using "4.IH"(1) [of "a @ [i]" "with_prefix prefix (if fieldTag \<noteq> [] then fieldTag else toLower name)"] rest
          by (simp add: Struct split: outcome.splits sum.splits)
      qed
    qed
  qed
qed simp_all

subsection \<open>Auxiliary facts about the row loop\<close>

lemma rows_Next_simps:
  "fst (rows_Next rows) \<longleftrightarrow> pending rows \<noteq> []"
  "pending (snd (rows_Next rows)) = tl (pending rows)"
  "terminal (snd (rows_Next rows)) = terminal rows"
  "col_names (snd (rows_Next rows)) = col_names rows"
  "current (snd (rows_Next rows)) = (case pending rows of [] \<Rightarrow> None | r # rs \<Rightarrow> Some r)"
  by (simp_all add: rows_Next_def split: list.splits)

lemma len_append_slice: "len (append_slice s x) = Suc (len s)"
  by (simp add: len_def append_slice_def split: option.splits)

lemma len_nil: "len None = 0"
  by (simp add: len_def)

declare parse_loop.simps [simp del]

lemma parse_loop_error:
  "parse_loop toLower zero conv columns rows acc = Returns (res, Some e) \<Longrightarrow>
   res = None \<or> (terminal rows = Some e \<and> len res = len acc + length (pending rows))"
proof (induction toLower zero conv columns rows acc rule: parse_loop.induct)
  case (1 toLower zero conv columns rows result)
  show ?case
  proof (cases "pending rows")
    case Nil
    with "1.prems" show ?thesis
      by (subst (asm) parse_loop.simps) (simp add: rows_Next_simps rows_Err_def)
  next
    case (Cons r rs)
    with "1.prems" "1.IH" show ?thesis
      by (subst (asm) parse_loop.simps)
         (auto simp: rows_Next_simps Let_def len_append_slice
               split: outcome.splits sum.splits)
  qed
qed

lemma parse_loop_returns:
  "\<exists>res err. parse_loop toLower (Struct fs) conv columns rows acc = Returns (res, err)"
proof (induction toLower "Struct fs" conv columns rows acc rule: parse_loop.induct)
  case (1 toLower conv columns rows result)
  obtain m where m: "createFieldMap toLower ([], Struct fs) columns [] = Returns (Inr m)"
    using createFieldMap_total(1) [of "Struct fs" fs toLower "[]" columns "[]"] by blast
  show ?case
  proof (cases "pending rows")
    case Nil
    then show ?thesis
      by (subst parse_loop.simps) (simp add: rows_Next_simps)
  next
    case (Cons r rs)
    show ?thesis
    proof (cases "rows_Scan conv (snd (rows_Next rows)) (scanDest_of m columns) (Struct fs)")
      case (Inl err)
      with Cons m show ?thesis
        by (subst parse_loop.simps) (simp add: rows_Next_simps Let_def del: createFieldMap.simps)
    next
      case (Inr item')
      from "1.hyps" [OF _ refl refl m refl Inr] Cons
      obtain res err where
        "parse_loop toLower (Struct fs) conv columns (snd (rows_Next rows)) (append_slice result item')
           = Returns (res, err)"
        by (auto simp: rows_Next_simps)
      with Cons m Inr show ?thesis
        by (subst parse_loop.simps) (simp add: rows_Next_simps Let_def del: createFieldMap.simps)
    qed
  qed
qed

lemma parse_loop_panics:
  "pending rows \<noteq> [] \<Longrightarrow> parse_loop toLower (Leaf s) conv columns rows acc = Panics"
  by (subst parse_loop.simps) (simp add: rows_Next_simps)

subsection \<open>Auxiliary facts about scan destinations\<close>

lemma keep_mapped_Nil: "keep_mapped fm [] xs = []" "keep_mapped fm columns [] = []"
  by (simp_all add: keep_mapped_def)

lemma keep_mapped_Cons:
  "keep_mapped fm (c # columns) (x # xs)
     = (if fm c \<noteq> None then x # keep_mapped fm columns xs else keep_mapped fm columns xs)"
  by (simp add: keep_mapped_def)

lemma length_keep_mapped:
  "length xs = length columns \<Longrightarrow>
   length (keep_mapped fm columns xs) = length (keep_mapped fm columns columns)"
proof (induction columns arbitrary: xs)
  case Nil
  then show ?case by (simp add: keep_mapped_Nil)
next
  case (Cons c columns)
  then obtain y ys where "xs = y # ys" "length ys = length columns"
    by (cases xs) auto
  with Cons.IH [of ys] show ?case by (simp add: keep_mapped_Cons)
qed

lemma scanDest_of_simps:
  "scanDest_of fm [] = []"
  "scanDest_of fm (c # columns)
     = (case fm c of Some ptr \<Rightarrow> FieldPtr ptr | None \<Rightarrow> Dummy) # scanDest_of fm columns"
  by (simp_all add: scanDest_of_def)

lemma length_scanDest_of: "length (scanDest_of fm columns) = length columns"
  by (simp add: scanDest_of_def)

lemma scan_cols_drop_unmapped:
  "length row = length columns \<Longrightarrow>
   scan_cols conv (scanDest_of fm columns) row item
     = scan_cols conv (scanDest_of fm (keep_mapped fm columns columns))
         (keep_mapped fm columns row) item"
proof (induction columns arbitrary: row item)
  case Nil
  then show ?case by (simp add: keep_mapped_Nil scanDest_of_simps)
next
  case (Cons c columns)
  then obtain r rs where row: "row = r # rs" "length rs = length columns"
    by (cases row) auto
  show ?case
  proof (cases "fm c")
    case None
    with Cons.IH [OF row(2)] row show ?thesis
      by (simp add: keep_mapped_Cons scanDest_of_simps)
  next
    case (Some ptr)
    with Cons.IH [OF row(2)] row show ?thesis
      by (simp add: keep_mapped_Cons scanDest_of_simps split: sum.splits)
  qed
qed

lemma rows_Scan_drop_unmapped:
  assumes "current rows = Some row" "length row = length columns"
      and "current rows' = Some (keep_mapped fm columns row)"
  shows "rows_Scan conv rows (scanDest_of fm columns) item
           = rows_Scan conv rows' (scanDest_of fm (keep_mapped fm columns columns)) item"
  using assms scan_cols_drop_unmapped [of row columns conv fm item]
        length_keep_mapped [of row columns fm]
  by (simp add: rows_Scan_def length_scanDest_of)

lemma parse_loop_drop_unmapped:
  "createFieldMap toLower ([], zero) columns [] = Returns (Inr fm) \<Longrightarrow>
   \<forall>row \<in> set (pending rows). length row = length columns \<Longrightarrow>
    parse_loop toLower zero conv columns rows acc
      = parse_loop toLower zero conv (keep_mapped fm columns columns)
          (rows\<lparr>col_names := cn,
                pending := map (keep_mapped fm columns) (pending rows),
                current := map_option (keep_mapped fm columns) (current rows)\<rparr>) acc"
proof (induction toLower zero conv columns rows acc rule: parse_loop.induct)
  case (1 toLower zero conv columns rows result)
  let ?k = "keep_mapped fm columns"
  let ?cols = "keep_mapped fm columns columns"
  let ?strip = "\<lambda>c. c\<lparr>col_names := cn, pending := map ?k (pending c),
                        current := map_option ?k (current c)\<rparr>"
  note fm = "1.prems"(1)
  show ?case
  proof (cases "pending rows")
    case Nil
    have "parse_loop toLower zero conv columns rows result = Returns (result, terminal rows)"
      using Nil by (subst parse_loop.simps) (simp add: rows_Next_def rows_Err_def)
    moreover have "parse_loop toLower zero conv ?cols (?strip rows) result
        = Returns (result, terminal rows)"
      using Nil by (subst parse_loop.simps) (simp add: rows_Next_def rows_Err_def)
    ultimately show ?thesis by simp
  next
    case (Cons r rs)
    define rows1 where "rows1 = snd (rows_Next rows)"
    have next1: "fst (rows_Next rows)" and next2: "fst (rows_Next (?strip rows))"
      using Cons by (simp_all add: rows_Next_def)
    have strip1: "snd (rows_Next (?strip rows)) = ?strip rows1"
      using Cons by (simp add: rows_Next_def rows1_def)
    have cur: "current rows1 = Some r" "current (?strip rows1) = Some (?k r)"
      using Cons by (simp_all add: rows_Next_def rows1_def)
    have len: "length r = length columns"
      using "1.prems"(2) Cons by simp
    have wf1: "\<forall>row \<in> set (pending rows1). length row = length columns"
      using "1.prems"(2) Cons by (simp add: rows_Next_def rows1_def)
    have fm': "createFieldMap toLower ([], zero) ?cols [] = Returns (Inr fm)"
      using createFieldMap_columns_irrelevant(1) [of toLower "[]" zero ?cols "[]" columns] fm
      by simp
    have scan: "rows_Scan conv (?strip rows1) (scanDest_of fm ?cols) zero
                  = rows_Scan conv rows1 (scanDest_of fm columns) zero"
      using rows_Scan_drop_unmapped [OF cur(1) len cur(2)] by simp
    have L: "parse_loop toLower zero conv columns rows result
        = (case rows_Scan conv rows1 (scanDest_of fm columns) zero of
             Inl err \<Rightarrow> Returns (None, Some err)
           | Inr item' \<Rightarrow> parse_loop toLower zero conv columns rows1 (append_slice result item'))"
      by (subst parse_loop.simps) (simp add: next1 fm Let_def rows1_def [symmetric])
    have R: "parse_loop toLower zero conv ?cols (?strip rows) result
        = (case rows_Scan conv rows1 (scanDest_of fm columns) zero of
             Inl err \<Rightarrow> Returns (None, Some err)
           | Inr item' \<Rightarrow> parse_loop toLower zero conv ?cols (?strip rows1) (append_slice result item'))"
      by (subst parse_loop.simps) (simp only: next2 fm' Let_def strip1 scan if_True outcome.case sum.case)
    show ?thesis
    proof (cases "rows_Scan conv rows1 (scanDest_of fm columns) zero")
      case (Inl err)
      then show ?thesis by (simp add: L R)
    next
      case (Inr item')
      from "1.IH" [OF next1 rows1_def refl fm refl Inr fm wf1]
      show ?thesis by (simp add: L R Inr)
    qed
  qed
qed

subsection \<open>Auxiliary facts about scanning row by row\<close>

lemma rows_Scan_current:
  "current rows = Some row \<Longrightarrow>
   rows_Scan conv rows (scanDest_of fm columns) zero = scan_row conv fm columns zero row"
  by (simp add: rows_Scan_def scan_row_def)

lemma elems_append_slice: "elems (append_slice s x) = elems s @ [x]"
  by (simp add: elems_def append_slice_def split: option.splits)

lemma len_elems: "len s = length (elems s)"
  by (simp add: len_def elems_def split: option.splits)

lemma scan_all_length:
  "scan_all conv fm columns zero rs = Inr items \<Longrightarrow> length items = length rs"
  by (induction rs arbitrary: items) (auto split: sum.splits)

lemma parse_loop_scan_all:
  "createFieldMap toLower ([], zero) columns [] = Returns (Inr fm) \<Longrightarrow>
   (case scan_all conv fm columns zero (pending rows) of
      Inl e \<Rightarrow> parse_loop toLower zero conv columns rows acc = Returns (None, Some e)
    | Inr items \<Rightarrow>
        (\<exists>res. parse_loop toLower zero conv columns rows acc = Returns (res, terminal rows)
               \<and> elems res = elems acc @ items))"
proof (induction toLower zero conv columns rows acc rule: parse_loop.induct)
  case (1 toLower zero conv columns rows result)
  note fm = "1.prems"
  show ?case
  proof (cases "pending rows")
    case Nil
    then show ?thesis
      by (subst parse_loop.simps) (simp add: rows_Next_simps rows_Err_def)
  next
    case (Cons r rs)
    define rows1 where "rows1 = snd (rows_Next rows)"
    have next1: "fst (rows_Next rows)"
      using Cons by (simp add: rows_Next_simps)
    have p1: "pending rows1 = rs" "terminal rows1 = terminal rows"
      using Cons by (simp_all add: rows1_def rows_Next_simps)
    have "current rows1 = Some r"
      using Cons by (simp add: rows1_def rows_Next_simps)
    then have scan: "rows_Scan conv rows1 (scanDest_of fm columns) zero = scan_row conv fm columns zero r"
      by (rule rows_Scan_current)
    have L: "parse_loop toLower zero conv columns rows result
        = (case scan_row conv fm columns zero r of
             Inl err \<Rightarrow> Returns (None, Some err)
           | Inr item' \<Rightarrow> parse_loop toLower zero conv columns rows1 (append_slice result item'))"
      by (subst parse_loop.simps) (simp add: next1 fm Let_def rows1_def [symmetric] scan)
    show ?thesis
    proof (cases "scan_row conv fm columns zero r")
      case (Inl err)
      then show ?thesis by (simp add: L Cons)
    next
      case (Inr item')
      from "1.IH" [OF next1 rows1_def refl fm refl Inr [folded scan] fm]
      show ?thesis
        by (auto simp: L Cons Inr p1 elems_append_slice split: sum.splits)
    qed
  qed
qed

lemma scan_all_error:
  "scan_all conv fm columns zero rs = Inl e \<Longrightarrow>
   list_ex (\<lambda>row. scan_row conv fm columns zero row = Inl e) rs"
  by (induction rs) (auto split: sum.splits)

text \<open>The definitions that a scenario unfolds when it is run.\<close>

lemmas scenario_defs = Query_def parseDbResult_def rows_Columns_def rows_Err_def rows_Next_def
  rows_Scan_def scanDest_of_def append_slice_def len_def scan_same_kind_def session_of_def
  rows_of_def User_def UserWithAddress_def parse_loop.simps

lemmas tx_defs = ExecuteInTransaction_def tx_Commit_def tx_Rollback_def fresh_tx_def
  connection_of_def scope_of_def

subsection \<open>Transaction scopes\<close>

text \<open>
  C1, as stated, fails: "exactly one of commit and rollback is invoked on the transaction
  handle, exactly once". When the scope function succeeds and the commit succeeds, the handle
  receives \<open>Commit\<close> and then the deferred \<open>Rollback\<close>.
\<close>

theorem ExecuteInTransaction_commit_then_rollback:
  "map_option history (snd (ExecuteInTransaction 0 ()
      (connection_of (Inr (fresh_tx None))) (scope_of (Returns (7, None))) []))
     = Some [Commit, Rollback]"
  by (simp add: tx_defs)

text \<open>
  C1, amended. Whenever \<open>BeginTx\<close> succeeds, whatever the scope function does (returns a value,
  returns an error, panics): \<open>ExecuteInTransaction\<close> invokes \<open>Rollback\<close> on the handle exactly
  once, as its last call; it invokes \<open>Commit\<close> exactly once, before that, when the scope
  function has returned a nil error, and not at all otherwise. When the commit fails the
  returned error is the commit error (with the zero value), and the rollback has been
  invoked after it. When \<open>BeginTx\<close> fails there is no handle, its error is returned, and neither
  is invoked.
\<close>

theorem ExecuteInTransaction_calls:
  "(db ctx (if length opts > 0 then Some (opts ! 0) else None) = Inl e \<longrightarrow>
      ExecuteInTransaction zero ctx db tsf opts = (Returns (zero, Some e), None))
   \<and> (db ctx (if length opts > 0 then Some (opts ! 0) else None) = Inr t
        \<and> tsf ctx t = (out, t1) \<longrightarrow>
      map_option history (snd (ExecuteInTransaction zero ctx db tsf opts))
        = Some (history t1 @ (case out of Returns (r, None) \<Rightarrow> [Commit, Rollback]
                              | _ \<Rightarrow> [Rollback]))
      \<and> (case out of
            Returns (r, None) \<Rightarrow>
              fst (ExecuteInTransaction zero ctx db tsf opts)
                = (case commit_result t1 of Some err \<Rightarrow> Returns (zero, Some err)
                   | None \<Rightarrow> Returns (r, None))
          | Returns (r, Some err) \<Rightarrow>
              fst (ExecuteInTransaction zero ctx db tsf opts) = Returns (zero, Some err)
          | Panics \<Rightarrow> fst (ExecuteInTransaction zero ctx db tsf opts) = Panics))"
  by (auto simp: ExecuteInTransaction_def tx_Commit_def tx_Rollback_def Let_def
           split: outcome.splits option.splits prod.splits)

text \<open>
  The amended C1 at a commit that fails after a successful scope function, and at a
  \<open>BeginTx\<close> that fails.
\<close>

theorem ExecuteInTransaction_calls_witness:
  "map_option history (snd (ExecuteInTransaction 0 ()
      (connection_of (Inr (fresh_tx (Some (OtherError ''commit failed'')))))
      (scope_of (Returns (7, None))) []))
     = Some [Commit, Rollback]
   \<and> fst (ExecuteInTransaction 0 ()
      (connection_of (Inr (fresh_tx (Some (OtherError ''commit failed'')))))
      (scope_of (Returns (7, None))) [])
     = Returns (0, Some (OtherError ''commit failed''))
   \<and> ExecuteInTransaction 0 ()
      (connection_of (Inl (OtherError ''connection refused'')))
      (scope_of (Returns (7, None))) []
     = (Returns (0, Some (OtherError ''connection refused'')), None)"
  using ExecuteInTransaction_calls
    [of "connection_of (Inr (fresh_tx (Some (OtherError ''commit failed''))))"
        "()" "[]" "OtherError ''none''" 0 "scope_of (Returns (7, None))"
        "fresh_tx (Some (OtherError ''commit failed''))" "Returns (7, None)"
        "fresh_tx (Some (OtherError ''commit failed''))"]
    ExecuteInTransaction_calls
    [of "connection_of (Inl (OtherError ''connection refused''))"
        "()" "[]" "OtherError ''connection refused''" 0 "scope_of (Returns (7, None))"
        "fresh_tx None" "Returns (7, None)" "fresh_tx None"]
  by (simp add: fresh_tx_def connection_of_def scope_of_def)

text \<open>
  C6. If the scope function returns a non-nil error, \<open>ExecuteInTransaction\<close> returns the zero
  value of \<open>T\<close> with exactly that error, and the only call it makes on the handle is the
  rollback: commit is not called.
\<close>

theorem ExecuteInTransaction_scope_error:
  assumes "db ctx (if length opts > 0 then Some (opts ! 0) else None) = Inr t"
      and "tsf ctx t = (Returns (r, Some err), t1)"
  shows "ExecuteInTransaction zero ctx db tsf opts
           = (Returns (zero, Some err), Some (t1\<lparr>history := history t1 @ [Rollback]\<rparr>))"
  using assms by (simp add: ExecuteInTransaction_def tx_Rollback_def)

text \<open>C6 at a scope function that fails on a fresh handle.\<close>

theorem ExecuteInTransaction_scope_error_witness:
  "ExecuteInTransaction 0 () (connection_of (Inr (fresh_tx None)))
      (scope_of (Returns (7, Some (OtherError ''constraint violated'')))) []
     = (Returns (0, Some (OtherError ''constraint violated'')),
        Some \<lparr>history = [Rollback], commit_result = None, rollback_result = None\<rparr>)"
  using ExecuteInTransaction_scope_error
    [of "connection_of (Inr (fresh_tx None))" "()" "[]" "fresh_tx None"
        "scope_of (Returns (7, Some (OtherError ''constraint violated'')))" 7
        "OtherError ''constraint violated''" "fresh_tx None" 0]
  by (simp add: fresh_tx_def connection_of_def scope_of_def)

subsection \<open>Column-name resolution\<close>

text \<open>
  C4. For every record shape (field names being Go identifiers), every namespace prefix and
  every location, the map built by \<open>createFieldMap\<close> is the one the resolution rule
  describes: the fields of an embedded struct are bound in the current namespace with no
  added prefix, whatever its tag; the column names of a named nested struct are prefixed
  with its resolved name (tag, else lower-cased field name) and \<open>_\<close>, and the prefixes
  of nested records compose with the separator \<open>_\<close>. Of the lower-casing only this is
  used: the lower-cased form of a non-empty name is not empty.
\<close>

theorem createFieldMap_column_name_resolution:
  assumes "\<And>s. s \<noteq> [] \<Longrightarrow> toLower s \<noteq> []"
      and "go_names (Struct fs)"
  shows "createFieldMap toLower (a, Struct fs) columns prefix
           = Returns (Inr (spec_fieldmap a prefix (spec_columns toLower (Struct fs))))"
  by (rule createFieldMap_refines(1) [OF assms(1) assms(2) refl])

text \<open>
  C4 at a record with an embedded struct that carries a tag and a named struct nested twice,
  the names being ASCII.
\<close>

theorem createFieldMap_column_name_resolution_witness:
  "go_names (Struct
      [StructField ''Base'' ''base'' True True
         (Struct [StructField ''ID'' [] False True (Leaf (SInt 0))]),
       StructField ''Outer'' [] False True
         (Struct [StructField ''Inner'' ''in'' False True
            (Struct [StructField ''Leaf'' [] False True (Leaf (SStr []))])])])
   \<and> (case createFieldMap toLower_ascii ([], Struct
      [StructField ''Base'' ''base'' True True
         (Struct [StructField ''ID'' [] False True (Leaf (SInt 0))]),
       StructField ''Outer'' [] False True
         (Struct [StructField ''Inner'' ''in'' False True
            (Struct [StructField ''Leaf'' [] False True (Leaf (SStr []))])])]) [] [] of
        Returns (Inr m) \<Rightarrow>
          m ''id'' = Some [0, 0] \<and> m ''outer_in_leaf'' = Some [1, 0, 0]
          \<and> m ''base_id'' = None \<and> m ''leaf'' = None
      | _ \<Rightarrow> False)"
  using createFieldMap_column_name_resolution
    [where toLower = toLower_ascii and a = "[]" and columns = "[]" and prefix = "[]" and fs = "[StructField ''Base'' ''base'' True True
         (Struct [StructField ''ID'' [] False True (Leaf (SInt 0))]),
       StructField ''Outer'' [] False True
         (Struct [StructField ''Inner'' ''in'' False True
            (Struct [StructField ''Leaf'' [] False True (Leaf (SStr []))])])]"]
  by (simp add: spec_fieldmap_def with_prefix_def toLower_literals toLower_ascii_Nil_iff)

text \<open>
  C3, run on the code. The record \<open>{ID `db:"id"`; Address struct{Street string}
  `db:"address_"`}\<close>, the columns \<open>id\<close> and \<open>address_street\<close>, the row \<open>(1, "Main St")\<close>.
  The tag \<open>address_\<close> and the separator give the column name \<open>address__street\<close>; the column
  \<open>address_street\<close> has no binding, so \<open>Query\<close> returns the record with \<open>Street\<close> left empty,
  and no error.
\<close>

theorem Query_nested_tag_scenario:
  "Query toLower_ascii UserWithAddress scan_same_kind ()
     (session_of (rows_of [''id'', ''address_street''] [[SInt 1, SStr ''Main St'']] None))
     ''SELECT id, address_street FROM users'' []
   = Returns (Some [Struct [StructField ''ID'' ''id'' False True (Leaf (SInt 1)),
             StructField ''Address'' ''address_'' False True
               (Struct [StructField ''Street'' [] False True (Leaf (SStr []))])]], None)
   \<and> (case createFieldMap toLower_ascii ([], UserWithAddress) [''id'', ''address_street''] [] of
         Returns (Inr m) \<Rightarrow>
           m ''address_street'' = None \<and> m ''address__street'' = Some [1, 0]
       | _ \<Rightarrow> False)"
  by (simp add: scenario_defs toLower_literals)

subsection \<open>Unmapped columns\<close>

text \<open>
  C5. Let the field map of the record type and the columns of a cursor be given, every row
  having one value per column. Every column without a binding gets the dummy destination,
  and the result of \<open>parseDbResult\<close> and of \<open>Query\<close> (records and error alike) is the one
  obtained from the cursor without its unmapped columns: their values cause no error and
  reach no field.
\<close>

theorem unmapped_columns_discarded:
  assumes "createFieldMap toLower ([], zero) columns [] = Returns (Inr fieldMap)"
      and "rows_Columns rows = Inr columns"
      and "\<forall>row \<in> set (pending rows). length row = length columns"
      and "conn ctx query args = Inr rows"
      and "conn' ctx query args = Inr (drop_unmapped fieldMap rows)"
  shows "(\<forall>i < length columns. fieldMap (columns ! i) = None
            \<longrightarrow> scanDest_of fieldMap columns ! i = Dummy)
         \<and> parseDbResult toLower zero conv rows = parseDbResult toLower zero conv (drop_unmapped fieldMap rows)
         \<and> Query toLower zero conv ctx conn query args = Query toLower zero conv ctx conn' query args"
proof -
  have dest: "\<forall>i < length columns. fieldMap (columns ! i) = None
            \<longrightarrow> scanDest_of fieldMap columns ! i = Dummy"
    by (simp add: scanDest_of_def)
  have cols: "col_names rows = Inr columns"
    using assms(2) by (simp add: rows_Columns_def)
  have "parse_loop toLower zero conv columns rows None
      = parse_loop toLower zero conv (keep_mapped fieldMap columns columns)
          (rows\<lparr>col_names := Inr (keep_mapped fieldMap columns columns),
                pending := map (keep_mapped fieldMap columns) (pending rows),
                current := map_option (keep_mapped fieldMap columns) (current rows)\<rparr>) None"
    using assms(1) assms(3) by (rule parse_loop_drop_unmapped)
  then have parse: "parseDbResult toLower zero conv rows
      = parseDbResult toLower zero conv (drop_unmapped fieldMap rows)"
    by (simp add: parseDbResult_def rows_Columns_def drop_unmapped_def cols)
  from dest parse assms(4) assms(5) show ?thesis by (simp add: Query_def)
qed

text \<open>
  C5 at a cursor whose second column \<open>extra\<close> has no field and holds a value that no field
  of the record would accept.
\<close>

theorem unmapped_columns_discarded_witness:
  "createFieldMap toLower_ascii ([], User) [''id'', ''extra'', ''name''] []
     = Returns (Inr [''id'' \<mapsto> [0], ''name'' \<mapsto> [1]])
   \<and> rows_Columns (rows_of [''id'', ''extra'', ''name''] [[SInt 1, SBool True, SStr ''a'']] None)
       = Inr [''id'', ''extra'', ''name'']
   \<and> map length (pending (rows_of [''id'', ''extra'', ''name''] [[SInt 1, SBool True, SStr ''a'']] None))
       = [length [''id'', ''extra'', ''name'']]
   \<and> scanDest_of [''id'' \<mapsto> [0], ''name'' \<mapsto> [1]] [''id'', ''extra'', ''name''] ! 1 = Dummy
   \<and> drop_unmapped [''id'' \<mapsto> [0], ''name'' \<mapsto> [1]]
        (rows_of [''id'', ''extra'', ''name''] [[SInt 1, SBool True, SStr ''a'']] None)
       = rows_of [''id'', ''name''] [[SInt 1, SStr ''a'']] None
   \<and> Query toLower_ascii User scan_same_kind ()
        (session_of (rows_of [''id'', ''extra'', ''name''] [[SInt 1, SBool True, SStr ''a'']] None))
        ''SELECT id, extra, name FROM users'' []
       = Query toLower_ascii User scan_same_kind ()
        (session_of (rows_of [''id'', ''name''] [[SInt 1, SStr ''a'']] None))
        ''SELECT id, extra, name FROM users'' []
   \<and> Query toLower_ascii User scan_same_kind ()
        (session_of (rows_of [''id'', ''extra'', ''name''] [[SInt 1, SBool True, SStr ''a'']] None))
        ''SELECT id, extra, name FROM users'' []
       = Returns (Some [Struct [StructField ''ID'' ''id'' False True (Leaf (SInt 1)),
                                StructField ''Name'' ''name'' False True (Leaf (SStr ''a''))]], None)"
  using unmapped_columns_discarded
    [where toLower = toLower_ascii and zero = User and columns = "[''id'', ''extra'', ''name'']"
       and fieldMap = "[''id'' \<mapsto> [0], ''name'' \<mapsto> [1]]"
       and rows = "rows_of [''id'', ''extra'', ''name''] [[SInt 1, SBool True, SStr ''a'']] None"
       and conn = "session_of (rows_of [''id'', ''extra'', ''name''] [[SInt 1, SBool True, SStr ''a'']] None)"
       and ctx = "()" and query = "''SELECT id, extra, name FROM users''" and args = "[]"
       and conn' = "session_of (rows_of [''id'', ''name''] [[SInt 1, SStr ''a'']] None)"
       and conv = scan_same_kind]
  by (simp add: scenario_defs drop_unmapped_def keep_mapped_def)

subsection \<open>Results and errors of Query\<close>

text \<open>
  C2, as stated, fails for the row mapper: when the terminal error of the cursor is set after
  a row has been scanned, \<open>parseDbResult\<close> returns that error together with the rows it has
  accumulated.
\<close>

theorem parseDbResult_partial_result_with_error:
  "parseDbResult toLower_ascii User scan_same_kind
     (rows_of [''id'', ''name''] [[SInt 1, SStr ''a'']] (Some (OtherError ''connection lost'')))
   = Returns (Some [Struct [StructField ''ID'' ''id'' False True (Leaf (SInt 1)),
                            StructField ''Name'' ''name'' False True (Leaf (SStr ''a''))]],
              Some (OtherError ''connection lost''))"
  by (simp add: scenario_defs)

text \<open>
  C2, amended. Whenever \<open>Query\<close> returns a non-nil error, the collection it returns is nil.
  \<open>parseDbResult\<close> returns nil alongside an error too, except alongside the terminal error of
  the cursor: there it returns the rows accumulated so far, one for each row of the cursor,
  which \<open>Query\<close> replaces by nil.
\<close>

theorem Query_error_nil_result:
  "(Query toLower zero conv ctx conn query args = Returns (res, Some e) \<longrightarrow> res = None)
   \<and> (parseDbResult toLower zero conv rows = Returns (res', Some e') \<longrightarrow>
        res' = None \<or> (rows_Err rows = Some e' \<and> len res' = length (pending rows)))"
proof (intro conjI impI)
  assume "Query toLower zero conv ctx conn query args = Returns (res, Some e)"
  then show "res = None"
    by (auto simp: Query_def split: sum.splits outcome.splits option.splits)
next
  assume "parseDbResult toLower zero conv rows = Returns (res', Some e')"
  then show "res' = None \<or> (rows_Err rows = Some e' \<and> len res' = length (pending rows))"
    by (auto simp: parseDbResult_def rows_Err_def len_nil split: sum.splits
             dest!: parse_loop_error)
qed

text \<open>The amended C2 at a cursor that fails after its only row.\<close>

theorem Query_error_nil_result_witness:
  "Query toLower_ascii User scan_same_kind ()
     (session_of (rows_of [''id'', ''name''] [[SInt 1, SStr ''a'']]
        (Some (OtherError ''connection lost''))))
     ''SELECT id, name FROM users'' []
     = Returns (None, Some (OtherError ''connection lost''))
   \<and> parseDbResult toLower_ascii User scan_same_kind
     (rows_of [''id'', ''name''] [[SInt 1, SStr ''a'']] (Some (OtherError ''connection lost'')))
     = Returns (Some [Struct [StructField ''ID'' ''id'' False True (Leaf (SInt 1)),
                              StructField ''Name'' ''name'' False True (Leaf (SStr ''a''))]],
                Some (OtherError ''connection lost''))
   \<and> rows_Err (rows_of [''id'', ''name''] [[SInt 1, SStr ''a'']]
        (Some (OtherError ''connection lost'')))
       = Some (OtherError ''connection lost'')
   \<and> len (Some [Struct [StructField ''ID'' ''id'' False True (Leaf (SInt 1)),
                         StructField ''Name'' ''name'' False True (Leaf (SStr ''a''))]])
       = length (pending (rows_of [''id'', ''name''] [[SInt 1, SStr ''a'']]
           (Some (OtherError ''connection lost''))))"
  using Query_error_nil_result
    [where toLower = toLower_ascii and zero = User and conv = scan_same_kind and ctx = "()"
       and conn = "session_of (rows_of [''id'', ''name''] [[SInt 1, SStr ''a'']]
           (Some (OtherError ''connection lost'')))"
       and query = "''SELECT id, name FROM users''" and args = "[]" and res = None
       and e = "OtherError ''connection lost''"
       and rows = "rows_of [''id'', ''name''] [[SInt 1, SStr ''a'']]
           (Some (OtherError ''connection lost''))"
       and res' = "Some [Struct [StructField ''ID'' ''id'' False True (Leaf (SInt 1)),
                       StructField ''Name'' ''name'' False True (Leaf (SStr ''a''))]]"
       and e' = "OtherError ''connection lost''"]
  by (simp add: scenario_defs)

text \<open>
  C7, as stated, fails: when the second row fails to scan, one row has been yielded and
  scanned before the failure, and \<open>Query\<close> returns the nil collection, of length 0, with the
  error.
\<close>

theorem Query_nil_on_scan_failure:
  "Query toLower_ascii User scan_same_kind ()
     (session_of (rows_of [''id'', ''name''] [[SInt 1, SStr ''a''], [SStr ''x'', SStr ''b'']] None))
     ''SELECT id, name FROM users'' []
     = Returns (None, Some (OtherError ''sql: Scan error: unsupported conversion''))"
  by (simp add: scenario_defs)

text \<open>
  C7, amended. Let the session and \<open>Columns\<close> succeed for a struct record type. When every row
  the cursor yields scans and the cursor ends without a terminal error, \<open>Query\<close> returns a nil
  error and a collection that holds the scanned records, one per row and in cursor order:
  its length is the number of rows yielded (0 when no row matches). When the scan of a row
  fails, \<open>Query\<close> returns the error of the first such row with the nil collection, whatever
  number of rows had been yielded before; when the cursor ends with a terminal error,
  \<open>Query\<close> returns that error with the nil collection.
\<close>

theorem Query_length:
  assumes "conn ctx query args = Inr rows"
      and "rows_Columns rows = Inr columns"
      and "createFieldMap toLower ([], zero) columns [] = Returns (Inr fieldMap)"
  shows "(scan_all conv fieldMap columns zero (pending rows) = Inr items \<and> rows_Err rows = None
            \<longrightarrow> (\<exists>res. Query toLower zero conv ctx conn query args = Returns (res, None)
                       \<and> elems res = items \<and> len res = length (pending rows)))
         \<and> (scan_all conv fieldMap columns zero (pending rows) = Inl e
            \<longrightarrow> Query toLower zero conv ctx conn query args = Returns (None, Some e))
         \<and> (scan_all conv fieldMap columns zero (pending rows) = Inr items \<and> rows_Err rows = Some e
            \<longrightarrow> Query toLower zero conv ctx conn query args = Returns (None, Some e))"
proof -
  note loop = parse_loop_scan_all [OF assms(3), of conv rows None]
  have q: "Query toLower zero conv ctx conn query args
      = (case parse_loop toLower zero conv columns rows None of
           Panics \<Rightarrow> Panics
         | Returns (result, Some err) \<Rightarrow> Returns (None, Some err)
         | Returns (result, None) \<Rightarrow> Returns (result, None))"
    using assms(1) assms(2) by (simp add: Query_def parseDbResult_def)
  show ?thesis
  proof (intro conjI impI)
    assume a: "scan_all conv fieldMap columns zero (pending rows) = Inr items \<and> rows_Err rows = None"
    with loop obtain res where
      r: "parse_loop toLower zero conv columns rows None = Returns (res, None)" "elems res = items"
      by (auto simp: rows_Err_def elems_def)
    from a have "length items = length (pending rows)"
      by (auto dest: scan_all_length)
    with r show "\<exists>res. Query toLower zero conv ctx conn query args = Returns (res, None)
                       \<and> elems res = items \<and> len res = length (pending rows)"
      by (simp add: q len_elems)
  next
    assume "scan_all conv fieldMap columns zero (pending rows) = Inl e"
    with loop show "Query toLower zero conv ctx conn query args = Returns (None, Some e)"
      by (simp add: q)
  next
    assume "scan_all conv fieldMap columns zero (pending rows) = Inr items \<and> rows_Err rows = Some e"
    with loop show "Query toLower zero conv ctx conn query args = Returns (None, Some e)"
      by (auto simp: q rows_Err_def)
  qed
qed

text \<open>
  The amended C7 at the two rows \<open>(1, "a")\<close> and \<open>(2, "b")\<close>, which scan, and at a cursor whose
  second row does not.
\<close>

theorem Query_length_witness:
  "createFieldMap toLower_ascii ([], User) [''id'', ''name''] []
     = Returns (Inr [''id'' \<mapsto> [0], ''name'' \<mapsto> [1]])
   \<and> scan_all scan_same_kind [''id'' \<mapsto> [0], ''name'' \<mapsto> [1]] [''id'', ''name''] User
        [[SInt 1, SStr ''a''], [SInt 2, SStr ''b'']]
     = Inr [Struct [StructField ''ID'' ''id'' False True (Leaf (SInt 1)),
                    StructField ''Name'' ''name'' False True (Leaf (SStr ''a''))],
            Struct [StructField ''ID'' ''id'' False True (Leaf (SInt 2)),
                    StructField ''Name'' ''name'' False True (Leaf (SStr ''b''))]]
   \<and> (\<exists>res. Query toLower_ascii User scan_same_kind ()
          (session_of (rows_of [''id'', ''name''] [[SInt 1, SStr ''a''], [SInt 2, SStr ''b'']] None))
          ''SELECT id, name FROM users'' [] = Returns (res, None)
        \<and> elems res
            = [Struct [StructField ''ID'' ''id'' False True (Leaf (SInt 1)),
                       StructField ''Name'' ''name'' False True (Leaf (SStr ''a''))],
               Struct [StructField ''ID'' ''id'' False True (Leaf (SInt 2)),
                       StructField ''Name'' ''name'' False True (Leaf (SStr ''b''))]]
        \<and> len res = 2)
   \<and> scan_all scan_same_kind [''id'' \<mapsto> [0], ''name'' \<mapsto> [1]] [''id'', ''name''] User
        [[SInt 1, SStr ''a''], [SStr ''x'', SStr ''b'']]
     = Inl (OtherError ''sql: Scan error: unsupported conversion'')
   \<and> Query toLower_ascii User scan_same_kind ()
          (session_of (rows_of [''id'', ''name''] [[SInt 1, SStr ''a''], [SStr ''x'', SStr ''b'']] None))
          ''SELECT id, name FROM users'' []
     = Returns (None, Some (OtherError ''sql: Scan error: unsupported conversion''))"
  using Query_length
    [where toLower = toLower_ascii and zero = User and conv = scan_same_kind and ctx = "()"
       and conn = "session_of (rows_of [''id'', ''name''] [[SInt 1, SStr ''a''], [SInt 2, SStr ''b'']] None)"
       and query = "''SELECT id, name FROM users''" and args = "[]"
       and rows = "rows_of [''id'', ''name''] [[SInt 1, SStr ''a''], [SInt 2, SStr ''b'']] None"
       and columns = "[''id'', ''name'']"
       and fieldMap = "[''id'' \<mapsto> [0], ''name'' \<mapsto> [1]]"
       and items = "[Struct [StructField ''ID'' ''id'' False True (Leaf (SInt 1)),
                       StructField ''Name'' ''name'' False True (Leaf (SStr ''a''))],
               Struct [StructField ''ID'' ''id'' False True (Leaf (SInt 2)),
                       StructField ''Name'' ''name'' False True (Leaf (SStr ''b''))]]"
       and e = "OtherError ''none''"]
    Query_length
    [where toLower = toLower_ascii and zero = User and conv = scan_same_kind and ctx = "()"
       and conn = "session_of (rows_of [''id'', ''name''] [[SInt 1, SStr ''a''], [SStr ''x'', SStr ''b'']] None)"
       and query = "''SELECT id, name FROM users''" and args = "[]"
       and rows = "rows_of [''id'', ''name''] [[SInt 1, SStr ''a''], [SStr ''x'', SStr ''b'']] None"
       and columns = "[''id'', ''name'']"
       and fieldMap = "[''id'' \<mapsto> [0], ''name'' \<mapsto> [1]]"
       and items = "[]"
       and e = "OtherError ''sql: Scan error: unsupported conversion''"]
  by (simp add: scenario_defs scan_row_def elems_def)

subsection \<open>Panics and the origin of errors\<close>

text \<open>
  C9. For a type parameter that is not a struct, \<open>Query\<close> on a cursor that yields at least one
  row (the session and \<open>Columns\<close> having succeeded) returns no error value but panics, in
  \<open>NumField\<close>; for a struct type \<open>Query\<close> never panics.
\<close>

theorem Query_panics_unless_struct:
  "(conn ctx query args = Inr rows \<and> rows_Columns rows = Inr columns \<and> pending rows \<noteq> []
      \<longrightarrow> Query toLower (Leaf s) conv ctx conn query args = Panics)
   \<and> Query toLower (Struct fs) conv ctx conn query args \<noteq> Panics"
proof (intro conjI impI)
  assume "conn ctx query args = Inr rows \<and> rows_Columns rows = Inr columns \<and> pending rows \<noteq> []"
  then show "Query toLower (Leaf s) conv ctx conn query args = Panics"
    by (simp add: Query_def parseDbResult_def parse_loop_panics)
next
  show "Query toLower (Struct fs) conv ctx conn query args \<noteq> Panics"
  proof (cases "conn ctx query args")
    case (Inl e)
    then show ?thesis by (simp add: Query_def)
  next
    case (Inr rows)
    show ?thesis
    proof (cases "rows_Columns rows")
      case (Inl e)
      with Inr show ?thesis by (simp add: Query_def parseDbResult_def)
    next
      case cols: (Inr columns)
      obtain res err where "parse_loop toLower (Struct fs) conv columns rows None = Returns (res, err)"
        using parse_loop_returns by blast
      with Inr cols show ?thesis
        by (cases err) (simp_all add: Query_def parseDbResult_def)
    qed
  qed
qed

text \<open>C9 at \<open>Query[int]\<close> and at the empty struct, on a cursor of one row.\<close>

theorem Query_panics_unless_struct_witness:
  "session_of (rows_of [''n''] [[SInt 1]] None) () ''SELECT n FROM t'' []
     = Inr (rows_of [''n''] [[SInt 1]] None)
   \<and> rows_Columns (rows_of [''n''] [[SInt 1]] None) = Inr [''n'']
   \<and> pending (rows_of [''n''] [[SInt 1]] None) \<noteq> []
   \<and> Query toLower_ascii (Leaf (SInt 0)) scan_same_kind () (session_of (rows_of [''n''] [[SInt 1]] None))
        ''SELECT n FROM t'' [] = Panics
   \<and> Query toLower_ascii (Struct []) scan_same_kind () (session_of (rows_of [''n''] [[SInt 1]] None))
        ''SELECT n FROM t'' [] \<noteq> Panics"
  using Query_panics_unless_struct
    [where toLower = toLower_ascii and conn = "session_of (rows_of [''n''] [[SInt 1]] None)"
       and ctx = "()" and query = "''SELECT n FROM t''" and args = "[]"
       and rows = "rows_of [''n''] [[SInt 1]] None" and columns = "[''n'']" and s = "SInt 0"
       and conv = scan_same_kind and fs = "[]"]
  by (simp add: session_of_def rows_of_def rows_Columns_def)

text \<open>
  C10. \<open>createFieldMap\<close> returns a nil error (and a map) for every struct, column list and
  prefix. Hence every error that \<open>Query\<close> returns is the error of the session, of \<open>Columns\<close>,
  of the \<open>Scan\<close> of one of the cursor's rows or the terminal error of the cursor, and every
  error that \<open>ExecuteInTransaction\<close> returns is the error of \<open>BeginTx\<close>, of the scope function
  or of \<open>Commit\<close>: the mapper contributes none, so \<open>ErrInvalidDataType\<close> is never produced by it.
  The same holds of every error in a pair that \<open>QueryAsync\<close> or \<open>ExecuteInTransactionAsync\<close> is
  resolved with, when \<open>async.Do\<close> resolves with the pair its unit of work returns.
\<close>

theorem errors_originate_outside_the_mapper:
  "(\<exists>fieldMap. createFieldMap toLower (a, Struct fs) columns prefix = Returns (Inr fieldMap))
   \<and> (Query toLower zero conv ctx conn query args = Returns (res, Some e) \<longrightarrow>
        query_error_origin toLower zero conv ctx conn query args e)
   \<and> (fst (ExecuteInTransaction zero' ctx' db tsf opts) = Returns (r, Some e') \<longrightarrow>
        tx_error_origin ctx' db tsf opts e')
   \<and> ((\<forall>f p. f ctx = Returns p \<longrightarrow> Do ctx f = [p])
        \<and> Query toLower zero conv ctx conn query args \<noteq> Panics
        \<and> (res, Some e) \<in> set (QueryAsync Do toLower zero conv ctx conn query args) \<longrightarrow>
        query_error_origin toLower zero conv ctx conn query args e)
   \<and> ((\<forall>f p. f ctx' = Returns p \<longrightarrow> Do' ctx' f = [p])
        \<and> fst (ExecuteInTransaction zero' ctx' db tsf opts) \<noteq> Panics
        \<and> (r, Some e') \<in> set (ExecuteInTransactionAsync Do' zero' ctx' db tsf opts) \<longrightarrow>
        tx_error_origin ctx' db tsf opts e')"
proof -
  have total: "\<exists>fieldMap. createFieldMap toLower (a, Struct fs) columns prefix = Returns (Inr fieldMap)"
    by (rule createFieldMap_total(1)) simp
  have query: "query_error_origin toLower zero conv ctx conn query args e"
    if q: "Query toLower zero conv ctx conn query args = Returns (res, Some e)" for res e
  proof (cases "conn ctx query args")
    case (Inl err)
    with q show ?thesis by (simp add: Query_def query_error_origin_def)
  next
    case (Inr rows)
    show ?thesis
    proof (cases "rows_Columns rows")
      case (Inl err)
      with q Inr show ?thesis by (simp add: Query_def parseDbResult_def query_error_origin_def)
    next
      case cols: (Inr cs)
      from q Inr cols obtain res' where
        loop: "parse_loop toLower zero conv cs rows None = Returns (res', Some e)"
        by (auto simp: Query_def parseDbResult_def split: outcome.splits option.splits)
      show ?thesis
      proof (cases zero)
        case (Leaf s)
        show ?thesis
        proof (cases "pending rows")
          case Nil
          with loop have "rows_Err rows = Some e"
            by (subst (asm) parse_loop.simps) (simp add: rows_Next_simps rows_Err_def)
          with Inr cols show ?thesis by (simp add: query_error_origin_def)
        next
          case (Cons r rs)
          with loop Leaf show ?thesis by (simp add: parse_loop_panics)
        qed
      next
        case (Struct sfs)
        obtain fm where fm: "createFieldMap toLower ([], zero) cs [] = Returns (Inr fm)"
          using createFieldMap_total(1) [of zero sfs toLower "[]" cs "[]"] Struct by blast
        show ?thesis
        proof (cases "scan_all conv fm cs zero (pending rows)")
          case (Inl e0)
          with parse_loop_scan_all [OF fm, of conv rows None] loop have "e0 = e" by simp
          with Inl have "list_ex (\<lambda>row. scan_row conv fm cs zero row = Inl e) (pending rows)"
            by (simp add: scan_all_error)
          with Inr cols fm show ?thesis by (simp add: query_error_origin_def)
        next
          case (Inr items)
          with parse_loop_scan_all [OF fm, of conv rows None] loop have "rows_Err rows = Some e"
            by (auto simp: rows_Err_def)
          with \<open>conn ctx query args = Inr rows\<close> cols show ?thesis
            by (simp add: query_error_origin_def)
        qed
      qed
    qed
  qed
  have tx: "tx_error_origin ctx' db tsf opts e'"
    if x: "fst (ExecuteInTransaction zero' ctx' db tsf opts) = Returns (r, Some e')" for r e'
  proof (cases "db ctx' (if length opts > 0 then Some (opts ! 0) else None)")
    case (Inl err)
    with x show ?thesis by (simp add: ExecuteInTransaction_def tx_error_origin_def)
  next
    case (Inr t)
    obtain out t1 where tsf: "tsf ctx' t = (out, t1)" by (cases "tsf ctx' t")
    from x Inr tsf show ?thesis
      by (auto simp: ExecuteInTransaction_def tx_error_origin_def Let_def
               split: outcome.splits option.splits prod.splits if_splits)
  qed
  have qasync: "query_error_origin toLower zero conv ctx conn query args e"
    if "(\<forall>f p. f ctx = Returns p \<longrightarrow> Do ctx f = [p])
        \<and> Query toLower zero conv ctx conn query args \<noteq> Panics
        \<and> (res, Some e) \<in> set (QueryAsync Do toLower zero conv ctx conn query args)"
  proof -
    from that obtain p where p: "Query toLower zero conv ctx conn query args = Returns p"
      by (cases "Query toLower zero conv ctx conn query args") auto
    moreover from that have "\<And>f p. f ctx = Returns p \<Longrightarrow> Do ctx f = [p]"
      by blast
    ultimately have "QueryAsync Do toLower zero conv ctx conn query args = [p]"
      by (simp add: QueryAsync_def)
    with that p have "Query toLower zero conv ctx conn query args = Returns (res, Some e)"
      by simp
    then show ?thesis by (rule query)
  qed
  have tasync: "tx_error_origin ctx' db tsf opts e'"
    if "(\<forall>f p. f ctx' = Returns p \<longrightarrow> Do' ctx' f = [p])
        \<and> fst (ExecuteInTransaction zero' ctx' db tsf opts) \<noteq> Panics
        \<and> (r, Some e') \<in> set (ExecuteInTransactionAsync Do' zero' ctx' db tsf opts)"
  proof -
    from that obtain p where p: "fst (ExecuteInTransaction zero' ctx' db tsf opts) = Returns p"
      by (cases "fst (ExecuteInTransaction zero' ctx' db tsf opts)") auto
    moreover from that have "\<And>f p. f ctx' = Returns p \<Longrightarrow> Do' ctx' f = [p]"
      by blast
    ultimately have "ExecuteInTransactionAsync Do' zero' ctx' db tsf opts = [p]"
      by (simp add: ExecuteInTransactionAsync_def)
    with that p have "fst (ExecuteInTransaction zero' ctx' db tsf opts) = Returns (r, Some e')"
      by simp
    then show ?thesis by (rule tx)
  qed
  from total query tx qasync tasync show ?thesis by blast
qed

text \<open>
  C10 at a cursor whose second row fails to scan and at a commit that fails, synchronously
  and through the one-shot scheduler.
\<close>

theorem errors_originate_outside_the_mapper_witness:
  "Query toLower_ascii User scan_same_kind ()
     (session_of (rows_of [''id'', ''name''] [[SInt 1, SStr ''a''], [SStr ''x'', SStr ''b'']] None))
     ''SELECT id, name FROM users'' []
     = Returns (None, Some (OtherError ''sql: Scan error: unsupported conversion''))
   \<and> QueryAsync schedule toLower_ascii User scan_same_kind ()
     (session_of (rows_of [''id'', ''name''] [[SInt 1, SStr ''a''], [SStr ''x'', SStr ''b'']] None))
     ''SELECT id, name FROM users'' []
     = [(None, Some (OtherError ''sql: Scan error: unsupported conversion''))]
   \<and> query_error_origin toLower_ascii User scan_same_kind ()
     (session_of (rows_of [''id'', ''name''] [[SInt 1, SStr ''a''], [SStr ''x'', SStr ''b'']] None))
     ''SELECT id, name FROM users'' [] (OtherError ''sql: Scan error: unsupported conversion'')
   \<and> fst (ExecuteInTransaction 0 ()
        (connection_of (Inr (fresh_tx (Some (OtherError ''commit failed'')))))
        (scope_of (Returns (7, None))) [])
       = Returns (0, Some (OtherError ''commit failed''))
   \<and> ExecuteInTransactionAsync schedule 0 ()
        (connection_of (Inr (fresh_tx (Some (OtherError ''commit failed'')))))
        (scope_of (Returns (7, None))) []
       = [(0, Some (OtherError ''commit failed''))]
   \<and> tx_error_origin ()
        (connection_of (Inr (fresh_tx (Some (OtherError ''commit failed'')))))
        (scope_of (Returns (7, None))) [] (OtherError ''commit failed'')"
  using errors_originate_outside_the_mapper
    [where toLower = toLower_ascii and a = "[]" and fs = "[]" and columns = "[]" and prefix = "[]"
       and zero = User and conv = scan_same_kind and ctx = "()"
       and conn = "session_of (rows_of [''id'', ''name''] [[SInt 1, SStr ''a''], [SStr ''x'', SStr ''b'']] None)"
       and query = "''SELECT id, name FROM users''" and args = "[]" and res = None
       and e = "OtherError ''sql: Scan error: unsupported conversion''"
       and zero' = 0 and ctx' = "()"
       and db = "connection_of (Inr (fresh_tx (Some (OtherError ''commit failed''))))"
       and tsf = "scope_of (Returns (7, None))" and opts = "[]" and r = 0
       and e' = "OtherError ''commit failed''" and Do = schedule and Do' = schedule]
  by (simp add: scenario_defs tx_defs QueryAsync_def ExecuteInTransactionAsync_def schedule_def)

subsection \<open>The asynchronous variants\<close>

text \<open>
  C8. Let \<open>async.Do\<close> resolve the asynchronous result once, with the pair its unit of work
  returns under the context it was given. Then, for the same arguments, \<open>QueryAsync\<close> is
  resolved exactly once, with exactly the pair that \<open>Query\<close> returns, and
  \<open>ExecuteInTransactionAsync\<close> exactly once, with exactly the pair that
  \<open>ExecuteInTransaction\<close> returns.
\<close>

theorem async_resolves_with_synchronous_result:
  assumes "\<And>f p. f ctx = Returns p \<Longrightarrow> Do ctx f = [p]"
      and "\<And>f p. f ctx' = Returns p \<Longrightarrow> Do' ctx' f = [p]"
  shows "(Query toLower zero conv ctx conn query args = Returns p \<longrightarrow>
            QueryAsync Do toLower zero conv ctx conn query args = [p])
         \<and> (fst (ExecuteInTransaction zero' ctx' db tsf opts) = Returns q \<longrightarrow>
            ExecuteInTransactionAsync Do' zero' ctx' db tsf opts = [q])"
  using assms(1) [of "\<lambda>ctx. Query toLower zero conv ctx conn query args" p]
        assms(2) [of "\<lambda>ctx. fst (ExecuteInTransaction zero' ctx db tsf opts)" q]
  by (simp add: QueryAsync_def ExecuteInTransactionAsync_def)

text \<open>
  C8 with the one-shot scheduler, at the two rows \<open>(1, "a")\<close> and \<open>(2, "b")\<close> and at a scope
  function that fails.
\<close>

theorem async_resolves_with_synchronous_result_witness:
  "Query toLower_ascii User scan_same_kind ()
     (session_of (rows_of [''id'', ''name''] [[SInt 1, SStr ''a''], [SInt 2, SStr ''b'']] None))
     ''SELECT id, name FROM users'' []
     = Returns (Some [Struct [StructField ''ID'' ''id'' False True (Leaf (SInt 1)),
                              StructField ''Name'' ''name'' False True (Leaf (SStr ''a''))],
                      Struct [StructField ''ID'' ''id'' False True (Leaf (SInt 2)),
                              StructField ''Name'' ''name'' False True (Leaf (SStr ''b''))]], None)
   \<and> QueryAsync schedule toLower_ascii User scan_same_kind ()
     (session_of (rows_of [''id'', ''name''] [[SInt 1, SStr ''a''], [SInt 2, SStr ''b'']] None))
     ''SELECT id, name FROM users'' []
     = [(Some [Struct [StructField ''ID'' ''id'' False True (Leaf (SInt 1)),
                       StructField ''Name'' ''name'' False True (Leaf (SStr ''a''))],
               Struct [StructField ''ID'' ''id'' False True (Leaf (SInt 2)),
                       StructField ''Name'' ''name'' False True (Leaf (SStr ''b''))]], None)]
   \<and> fst (ExecuteInTransaction 0 () (connection_of (Inr (fresh_tx None)))
        (scope_of (Returns (7, Some (OtherError ''constraint violated'')))) [])
     = Returns (0, Some (OtherError ''constraint violated''))
   \<and> ExecuteInTransactionAsync schedule 0 () (connection_of (Inr (fresh_tx None)))
        (scope_of (Returns (7, Some (OtherError ''constraint violated'')))) []
     = [(0, Some (OtherError ''constraint violated''))]"
  using async_resolves_with_synchronous_result
    [where toLower = toLower_ascii and zero = User and conv = scan_same_kind and ctx = "()"
       and conn = "session_of (rows_of [''id'', ''name''] [[SInt 1, SStr ''a''], [SInt 2, SStr ''b'']] None)"
       and query = "''SELECT id, name FROM users''" and args = "[]"
       and p = "(Some [Struct [StructField ''ID'' ''id'' False True (Leaf (SInt 1)),
                       StructField ''Name'' ''name'' False True (Leaf (SStr ''a''))],
               Struct [StructField ''ID'' ''id'' False True (Leaf (SInt 2)),
                       StructField ''Name'' ''name'' False True (Leaf (SStr ''b''))]], None)"
       and zero' = 0 and ctx' = "()" and db = "connection_of (Inr (fresh_tx None))"
       and tsf = "scope_of (Returns (7, Some (OtherError ''constraint violated'')))"
       and opts = "[]" and q = "(0, Some (OtherError ''constraint violated''))"
       and Do = schedule and Do' = schedule]
  by (simp add: scenario_defs tx_defs schedule_def)

end
